theory Spec2Isabelle
  imports Complex_Main "HOL-Library.Sublist"
begin

section \<open>Python values used by \<open>fim.py\<close>\<close>

text \<open>
  The module \<open>fim.py\<close> works on three kinds of data: \<open>bytes\<close> (the sample handed to the
  parser), \<open>str\<close> (the three segments handed to the tokenizer) and lists of token ids.
  A byte string is a list of 8-bit characters, a \<open>str\<close> is the list of its Unicode code
  points, and a raised exception is the \<open>Inl\<close> branch of a sum.
\<close>

datatype py_error =
    KeyError
  | IndexError
  | ValueError
  | TypeError
  | UnicodeDecodeError
  | UnicodeEncodeError
  | Exception string

type_synonym bytes = "char list"
type_synonym str = "nat list"

subsection \<open>Slicing\<close>

text \<open>
  \<open>xs[a:b]\<close>, \<open>xs[a:]\<close> and \<open>xs[:b]\<close> for non-negative \<open>a\<close>, \<open>b\<close>: bounds beyond the end are
  clipped and a reversed range is empty, which is what \<open>take\<close> and \<open>drop\<close> do.
  \<open>xs[i]\<close> raises \<open>IndexError\<close> out of range.
\<close>

definition slice :: "nat \<Rightarrow> nat \<Rightarrow> 'a list \<Rightarrow> 'a list" where
  "slice a b xs = drop a (take b xs)"

definition getitem :: "'a list \<Rightarrow> nat \<Rightarrow> py_error + 'a" where
  "getitem xs i = (if i < length xs then Inr (xs ! i) else Inl IndexError)"

subsection \<open>\<open>bytes.decode("utf-8")\<close> and \<open>str.encode("utf-8")\<close>\<close>

text \<open>
  The strict UTF-8 codec: shortest form only, no surrogates, nothing above U+10FFFF (a
  \<open>str\<close> holds no code point above that, so the encoder's last branch is never taken).
  \<open>utf8_next\<close> reads one code point from the front of a byte sequence and returns it with
  the number of bytes it took; the decoder is the loop that repeats it until the input is
  used up.
\<close>

definition is_cont :: "nat \<Rightarrow> bool" where
  "is_cont b = (128 \<le> b \<and> b \<le> 191)"

definition second_lo :: "nat \<Rightarrow> nat" where
  "second_lo b0 = (if b0 = 224 then 160 else if b0 = 240 then 144 else 128)"

definition second_hi :: "nat \<Rightarrow> nat" where
  "second_hi b0 = (if b0 = 237 then 159 else if b0 = 244 then 143 else 191)"

fun utf8_next :: "nat list \<Rightarrow> (nat \<times> nat) option" where
  "utf8_next [] = None"
| "utf8_next (b0 # bs) =
    (if b0 < 128 then Some (b0, 1)
     else if 194 \<le> b0 \<and> b0 \<le> 223 then
       (case bs of
          b1 # r \<Rightarrow>
            if is_cont b1 then Some ((b0 - 192) * 64 + (b1 - 128), 2) else None
        | [] \<Rightarrow> None)
     else if 224 \<le> b0 \<and> b0 \<le> 239 then
       (case bs of
          b1 # b2 # r \<Rightarrow>
            if second_lo b0 \<le> b1 \<and> b1 \<le> second_hi b0 \<and> is_cont b2
            then Some ((b0 - 224) * 4096 + (b1 - 128) * 64 + (b2 - 128), 3) else None
        | _ \<Rightarrow> None)
     else if 240 \<le> b0 \<and> b0 \<le> 244 then
       (case bs of
          b1 # b2 # b3 # r \<Rightarrow>
            if second_lo b0 \<le> b1 \<and> b1 \<le> second_hi b0 \<and> is_cont b2 \<and> is_cont b3
            then Some ((b0 - 240) * 262144 + (b1 - 128) * 4096 + (b2 - 128) * 64 + (b3 - 128), 4)
            else None
        | _ \<Rightarrow> None)
     else None)"

fun utf8_codepoints :: "nat list \<Rightarrow> nat list option" where
  "utf8_codepoints [] = Some []"
| "utf8_codepoints (b # bs) =
    (case utf8_next (b # bs) of
       None \<Rightarrow> None
     | Some (c, n) \<Rightarrow> map_option ((#) c) (utf8_codepoints (drop (n - 1) bs)))"

definition utf8_decode :: "bytes \<Rightarrow> py_error + str" where
  "utf8_decode bs =
    (case utf8_codepoints (map of_char bs) of
       None \<Rightarrow> Inl UnicodeDecodeError
     | Some s \<Rightarrow> Inr s)"

definition utf8_encode_cp :: "nat \<Rightarrow> nat list option" where
  "utf8_encode_cp c =
    (if c < 128 then Some [c]
     else if c < 2048 then Some [192 + c div 64, 128 + c mod 64]
     else if c < 65536 then
       (if 55296 \<le> c \<and> c \<le> 57343 then None
        else Some [224 + c div 4096, 128 + (c div 64) mod 64, 128 + c mod 64])
     else if c < 1114112 then
       Some [240 + c div 262144, 128 + (c div 4096) mod 64, 128 + (c div 64) mod 64,
             128 + c mod 64]
     else None)"

fun utf8_encode_cps :: "nat list \<Rightarrow> nat list option" where
  "utf8_encode_cps [] = Some []"
| "utf8_encode_cps (c # cs) =
    (case utf8_encode_cp c of
       None \<Rightarrow> None
     | Some bs \<Rightarrow> map_option ((@) bs) (utf8_encode_cps cs))"

definition utf8_encode :: "str \<Rightarrow> py_error + bytes" where
  "utf8_encode s =
    (case utf8_encode_cps s of
       None \<Rightarrow> Inl UnicodeEncodeError
     | Some bs \<Rightarrow> Inr (map char_of bs))"

text \<open>The \<open>str\<close> of an ASCII literal.\<close>

definition ascii :: "string \<Rightarrow> str" where
  "ascii s = map of_char s"

section \<open>The tokenizer\<close>

text \<open>
  The tokenizer is a collaborator of the module: a vocabulary (a dict from token text to
  id), \<open>encode\<close> from text to ids and \<open>decode\<close> from ids to a \<open>str\<close> or to \<open>bytes\<close>.
  Both calls may raise.
\<close>

datatype decoded = PyStr str | PyBytes bytes

record tokenizer =
  vocab :: "string \<rightharpoonup> int"
  tok_encode :: "str \<Rightarrow> py_error + int list"
  tok_decode :: "int list \<Rightarrow> py_error + decoded"

definition FIM_SUFFIX :: string where "FIM_SUFFIX = ''<fim_suffix>''"
definition FIM_PREFIX :: string where "FIM_PREFIX = ''<fim_prefix>''"
definition FIM_MIDDLE :: string where "FIM_MIDDLE = ''<fim_middle>''"
definition FIM_PAD :: string where "FIM_PAD = ''<fim_pad>''"






section \<open>Syntax nodes and the annotation query\<close>

text \<open>
  A tree-sitter node as the module reads it: its \<open>type\<close>, its byte range and its parent
  (\<open>None\<close> at the root). The parser and the fixed query over the three annotation kinds
  are collaborators: \<open>PARSER.parse\<close> followed by \<open>QUERY.captures\<close> is a function from the
  sample to the list of captured \<open>(node, name)\<close> pairs, which may raise.
\<close>

datatype node = Node (node_type: string) (start_byte: nat) (end_byte: nat) (parent: "node option")

type_synonym ts_query = "bytes \<Rightarrow> py_error + (node \<times> string) list"

text \<open>
  The \<open>while node is not None\<close> loop of \<open>is_child_type_annotation\<close>, started at the parent.
\<close>

fun parent_walk :: "node option \<Rightarrow> bool" where
  "parent_walk None = False"
| "parent_walk (Some (Node t s e p)) =
    (if t = ''type_annotation'' \<or> t = ''opting_type_annotation''
        \<or> t = ''omitting_type_annotation''
     then True else parent_walk p)"

definition is_child_type_annotation :: "node \<Rightarrow> bool" where
  "is_child_type_annotation node = parent_walk (parent node)"

definition contains_url :: "bytes \<Rightarrow> node \<Rightarrow> py_error + bool" where
  "contains_url sample node =
    (case utf8_decode (slice (start_byte node) (end_byte node) sample) of
       Inl e \<Rightarrow> Inl e
     | Inr string \<Rightarrow> Inr (sublist (ascii ''//'') string))"

text \<open>
  \<open>not is_child_type_annotation(node) and not contains_url(node)\<close>: the second operand is
  evaluated (and may raise) only when the first is true.
\<close>

definition is_splitable :: "bytes \<Rightarrow> node \<Rightarrow> py_error + bool" where
  "is_splitable sample node =
    (if is_child_type_annotation node then Inr False
     else (case contains_url sample node of Inl e \<Rightarrow> Inl e | Inr b \<Rightarrow> Inr (\<not> b)))"

definition is_capturable :: "bytes \<Rightarrow> node \<Rightarrow> py_error + bool" where
  "is_capturable sample node =
    (if is_child_type_annotation node then Inr False
     else (case contains_url sample node of Inl e \<Rightarrow> Inl e | Inr b \<Rightarrow> Inr (\<not> b)))"

text \<open>The loop that fills \<open>captures_no_child\<close>; the last argument is the list so far.\<close>

fun captures_no_child_loop ::
  "bytes \<Rightarrow> (node \<times> string) list \<Rightarrow> node list \<Rightarrow> py_error + node list" where
  "captures_no_child_loop sample [] captures_no_child = Inr captures_no_child"
| "captures_no_child_loop sample ((node, name) # rest) captures_no_child =
    (case is_capturable sample node of
       Inl e \<Rightarrow> Inl e
     | Inr b \<Rightarrow>
         captures_no_child_loop sample rest
           (if b then captures_no_child @ [node] else captures_no_child))"

text \<open>
  The loop that fills \<open>splittable_indices\<close>; \<open>i\<close> is the counter of \<open>enumerate\<close>.
\<close>

fun splittable_indices_loop ::
  "bytes \<Rightarrow> node list \<Rightarrow> nat \<Rightarrow> nat list \<Rightarrow> py_error + nat list" where
  "splittable_indices_loop sample [] i splittable_indices = Inr splittable_indices"
| "splittable_indices_loop sample (node # rest) i splittable_indices =
    (case is_splitable sample node of
       Inl e \<Rightarrow> Inl e
     | Inr b \<Rightarrow>
         splittable_indices_loop sample rest (i + 1)
           (if b then splittable_indices @ [i] else splittable_indices))"

section \<open>The random generator\<close>

text \<open>
  \<open>np_rng\<close> is a mutable \<open>RandomState\<close>. Its state is a value of type \<open>'r\<close> that every call
  takes and returns; the two methods the module calls are parameters. A call may raise
  (\<open>binomial\<close> rejects a probability outside \<open>[0, 1]\<close>), and the state survives the raise.
\<close>

record 'r random_state =
  rng_choice :: "'r \<Rightarrow> nat list \<Rightarrow> (py_error + nat) \<times> 'r"
  rng_binomial :: "'r \<Rightarrow> nat \<Rightarrow> real \<Rightarrow> (py_error + nat) \<times> 'r"

section \<open>\<open>get_prefix_middle_suffix\<close>\<close>

text \<open>\<open>bytes.lstrip()\<close> removes leading ASCII whitespace: space, tab, LF, VT, FF, CR.\<close>

definition is_space :: "char \<Rightarrow> bool" where
  "is_space c = ((of_char c :: nat) = 32 \<or> (9 \<le> (of_char c :: nat) \<and> (of_char c :: nat) \<le> 13))"

definition lstrip :: "bytes \<Rightarrow> bytes" where
  "lstrip bs = dropWhile is_space bs"

text \<open>
  Prefix and middle of the picked node, with the colon moved:
  \<open>if middle_b.startswith(b":"): prefix_b += b": "; middle_b = middle_b[1:].lstrip()\<close>.
\<close>

definition prefix_middle :: "bytes \<Rightarrow> node \<Rightarrow> bytes \<times> bytes" where
  "prefix_middle sample picked =
    (let prefix_b = take (start_byte picked) sample;
         middle_b = slice (start_byte picked) (end_byte picked) sample
     in if prefix '':'' middle_b
        then (prefix_b @ '': '', lstrip (drop 1 middle_b))
        else (prefix_b, middle_b))"

text \<open>
  The strip branch. The loop runs \<open>i\<close> over \<open>range(random_pick_i, l - 1)\<close>, so both
  \<open>captures_no_child[i]\<close> and \<open>captures_no_child[i + 1]\<close> are in range, and the branch is
  reached only after \<open>captures_no_child[random_pick_i]\<close> was read, so \<open>l - 1\<close> is in range.
\<close>

definition strip_suffix :: "bytes \<Rightarrow> node list \<Rightarrow> nat \<Rightarrow> bytes" where
  "strip_suffix sample captures_no_child random_pick_i =
    (let l = length captures_no_child;
         suffix_b = foldl
           (\<lambda>suffix_b i. suffix_b @
              slice (end_byte (captures_no_child ! i))
                    (start_byte (captures_no_child ! (i + 1))) sample)
           [] [random_pick_i ..< l - 1]
     in suffix_b @ drop (end_byte (captures_no_child ! (l - 1))) sample)"

definition decode3 :: "bytes \<Rightarrow> bytes \<Rightarrow> bytes \<Rightarrow> py_error + (str \<times> str \<times> str)" where
  "decode3 prefix_b middle_b suffix_b =
    (case utf8_decode prefix_b of
       Inl e \<Rightarrow> Inl e
     | Inr prefix_str \<Rightarrow>
    (case utf8_decode middle_b of
       Inl e \<Rightarrow> Inl e
     | Inr middle_str \<Rightarrow>
    (case utf8_decode suffix_b of
       Inl e \<Rightarrow> Inl e
     | Inr suffix_str \<Rightarrow> Inr (prefix_str, middle_str, suffix_str))))"

text \<open>
  The function returns \<open>None\<close>, or the three texts together with \<open>np_rng\<close>; the generator
  is the second component of the result in every case, also when an exception leaves the
  function.
\<close>

definition get_prefix_middle_suffix ::
  "'r random_state \<Rightarrow> ts_query \<Rightarrow> 'r \<Rightarrow> bytes \<Rightarrow> real
    \<Rightarrow> (py_error + (str \<times> str \<times> str) option) \<times> 'r" where
  "get_prefix_middle_suffix R query np_rng sample strip_suffix_rate =
    (case query sample of
       Inl e \<Rightarrow> (Inl e, np_rng)
     | Inr captures \<Rightarrow>
    (case captures_no_child_loop sample captures [] of
       Inl e \<Rightarrow> (Inl e, np_rng)
     | Inr captures_no_child \<Rightarrow>
    (case splittable_indices_loop sample captures_no_child 0 [] of
       Inl e \<Rightarrow> (Inl e, np_rng)
     | Inr splittable_indices \<Rightarrow>
    if length splittable_indices = 0 then (Inr None, np_rng)
    else
    (case rng_choice R np_rng splittable_indices of
       (Inl e, np_rng1) \<Rightarrow> (Inl e, np_rng1)
     | (Inr random_pick_i, np_rng1) \<Rightarrow>
    (case getitem captures_no_child random_pick_i of
       Inl e \<Rightarrow> (Inl e, np_rng1)
     | Inr picked \<Rightarrow>
    (case prefix_middle sample picked of (prefix_b, middle_b) \<Rightarrow>
    (case rng_binomial R np_rng1 1 strip_suffix_rate of
       (Inl e, np_rng2) \<Rightarrow> (Inl e, np_rng2)
     | (Inr strip, np_rng2) \<Rightarrow>
    (case decode3 prefix_b middle_b
            (if strip \<noteq> 0 then strip_suffix sample captures_no_child random_pick_i
             else drop (end_byte picked) sample) of
       Inl e \<Rightarrow> (Inl e, np_rng2)
     | Inr res \<Rightarrow> (Inr (Some res), np_rng2)))))))))"

section \<open>\<open>permute\<close>\<close>

text \<open>What the \<open>except\<close> branch prints: the exception, then the decoded sample.\<close>

datatype printed = PrintException py_error | PrintFailedSample bytes

text \<open>
  \<open>decoded_bytes\<close>: the tokenizer's text, encoded when it is not \<open>bytes\<close> already.
\<close>

definition to_bytes :: "decoded \<Rightarrow> py_error + bytes" where
  "to_bytes d = (case d of PyBytes bs \<Rightarrow> Inr bs | PyStr s \<Rightarrow> utf8_encode s)"

subsection \<open>\<open>np.array\<close> and \<open>np.concatenate\<close>\<close>

text \<open>
  The elements of the list that \<open>permute\<close> returns are Python integers (the elements of
  the sample, when it is passed through) or numpy numbers (the elements of the
  concatenated array). A float64 element that comes from an integer holds an integer
  value, so every element is a kind and an integer.
\<close>

datatype number = PyInt int | NpInt64 int | NpUInt64 int | NpFloat64 int


text \<open>
  \<open>permute\<close> turns each encoded segment into an array with \<open>np.array\<close> and joins the
  segments and the sentinel lists with \<open>np.concatenate\<close>. On lists of Python integers that
  all lie in the int64 range (numpy on a 64-bit platform): a non-empty list becomes an
  int64 array and an empty list a float64 array; the concatenation of int64 arrays is an
  int64 array with the same numbers; and as soon as one operand is a float64 array the
  result is a float64 array, each integer being converted to the nearest double (ties to
  even). The double nearest to an integer is itself an integer, \<open>float64_of_int\<close>.

  When some integer lies outside the int64 range, numpy chooses uint64, float64 or
  object arrays depending on the values. That case is not modelled: what
  \<open>np.concatenate\<close> returns there is the parameter \<open>np_wide\<close>.
\<close>

definition int64_range :: "int \<Rightarrow> bool" where
  "int64_range x = (- (2 ^ 63) \<le> x \<and> x < 2 ^ 63)"

fun bit_length :: "nat \<Rightarrow> nat" where
  "bit_length n = (if n = 0 then 0 else Suc (bit_length (n div 2)))"

definition float64_of_int :: "int \<Rightarrow> int" where
  "float64_of_int x =
    (let a = nat \<bar>x\<bar>;
         e = bit_length a - 53;
         q = a div 2 ^ e;
         r = a mod 2 ^ e;
         q' = (if 2 ^ e < 2 * r \<or> (2 * r = 2 ^ e \<and> odd q) then q + 1 else q)
     in sgn x * int (q' * 2 ^ e))"

definition np_concatenate ::
  "(int list list \<Rightarrow> number list) \<Rightarrow> int list list \<Rightarrow> number list" where
  "np_concatenate np_wide arrays =
    (if list_all (list_all int64_range) arrays
     then (if list_ex (\<lambda>a. a = []) arrays
           then map (\<lambda>x. NpFloat64 (float64_of_int x)) (concat arrays)
           else map NpInt64 (concat arrays))
     else np_wide arrays)"

subsection \<open>The function\<close>

text \<open>
  The result is the returned pair (or the exception that leaves \<open>permute\<close>), the state of
  the generator afterwards, and what was printed. The sample is a list of Python integers;
  \<open>list(new_sample)\<close> is that list when the sample is passed through, and the list of the
  elements of the concatenated array otherwise.
\<close>

definition permute ::
  "'r random_state \<Rightarrow> ts_query \<Rightarrow> (int list list \<Rightarrow> number list) \<Rightarrow> tokenizer \<Rightarrow> int list
    \<Rightarrow> 'r \<Rightarrow> int \<Rightarrow> int \<Rightarrow> int \<Rightarrow> real \<Rightarrow> real \<Rightarrow> real
    \<Rightarrow> (py_error + number list option) \<times> 'r \<times> printed list" where
  "permute R query np_wide tokenizer sample np_rng suffix_tok_id prefix_tok_id middle_tok_id
      fim_rate fim_spm_rate strip_suffix_rate =
    (case rng_binomial R np_rng 1 fim_rate of
       (Inl e, np_rng1) \<Rightarrow> (Inl e, np_rng1, [])
     | (Inr fim, np_rng1) \<Rightarrow>
    if fim \<noteq> 0 then
    (case tok_decode tokenizer sample of
       Inl e \<Rightarrow> (Inl e, np_rng1, [])
     | Inr d \<Rightarrow>
    (case to_bytes d of
       Inl e \<Rightarrow> (Inl e, np_rng1, [])
     | Inr decoded_bytes \<Rightarrow>
    (case get_prefix_middle_suffix R query np_rng1 decoded_bytes strip_suffix_rate of
       (Inl e, np_rng2) \<Rightarrow>
         (Inr None, np_rng2, [PrintException e, PrintFailedSample decoded_bytes])
     | (Inr None, np_rng2) \<Rightarrow> (Inr None, np_rng2, [])
     | (Inr (Some (prefix_str, middle_str, suffix_str)), np_rng2) \<Rightarrow>
    (case tok_encode tokenizer prefix_str of
       Inl e \<Rightarrow> (Inl e, np_rng2, [])
     | Inr prefix_arr \<Rightarrow>
    (case tok_encode tokenizer middle_str of
       Inl e \<Rightarrow> (Inl e, np_rng2, [])
     | Inr middle_arr \<Rightarrow>
    (case tok_encode tokenizer suffix_str of
       Inl e \<Rightarrow> (Inl e, np_rng2, [])
     | Inr suffix_arr \<Rightarrow>
    (case rng_binomial R np_rng2 1 fim_spm_rate of
       (Inl e, np_rng3) \<Rightarrow> (Inl e, np_rng3, [])
     | (Inr spm, np_rng3) \<Rightarrow>
         if spm \<noteq> 0
         then (Inr (Some (np_concatenate np_wide
                 [[prefix_tok_id, suffix_tok_id], suffix_arr, [middle_tok_id],
                  prefix_arr, middle_arr])), np_rng3, [])
         else (Inr (Some (np_concatenate np_wide
                 [[prefix_tok_id], prefix_arr, [suffix_tok_id], suffix_arr,
                  [middle_tok_id], middle_arr])), np_rng3, []))))))))
    else (Inr (Some (map PyInt sample)), np_rng1, []))"

section \<open>The vocabulary of the specification\<close>

text \<open>
  The specification speaks of annotation kinds, of the ancestors of a node, of the source
  text of a node, of eligible spans, and of the gaps between consecutive eligible spans.
  These are defined here in its words; the theorems relate them to the functions above.
\<close>

definition annotation_kind :: "string \<Rightarrow> bool" where
  "annotation_kind t =
    (t = ''type_annotation'' \<or> t = ''opting_type_annotation'' \<or> t = ''omitting_type_annotation'')"

fun ancestors_from :: "node option \<Rightarrow> node list" where
  "ancestors_from None = []"
| "ancestors_from (Some (Node t s e p)) = Node t s e p # ancestors_from p"

definition ancestors :: "node \<Rightarrow> node list" where
  "ancestors node = ancestors_from (parent node)"

definition source_bytes :: "bytes \<Rightarrow> node \<Rightarrow> bytes" where
  "source_bytes sample node = slice (start_byte node) (end_byte node) sample"

text \<open>
  Eligible: no ancestor is of an annotation kind, and the source text decodes and does not
  contain \<open>//\<close>.
\<close>

definition eligible :: "bytes \<Rightarrow> node \<Rightarrow> bool" where
  "eligible sample node =
    (list_all (\<lambda>a. \<not> annotation_kind (node_type a)) (ancestors node)
     \<and> (case utf8_decode (source_bytes sample node) of
          Inl e \<Rightarrow> False
        | Inr text \<Rightarrow> \<not> sublist (ascii ''//'') text))"

text \<open>
  The gap texts from the \<open>i\<close>-th candidate on: from the end of each candidate to the start
  of the next, and from the end of the last candidate to the end of the sample.
\<close>

definition gap_texts :: "bytes \<Rightarrow> node list \<Rightarrow> nat \<Rightarrow> bytes list" where
  "gap_texts sample candidates i =
    map (\<lambda>k. slice (end_byte (candidates ! k)) (start_byte (candidates ! (k + 1))) sample)
        [i ..< length candidates - 1]
    @ [drop (end_byte (last candidates)) sample]"

text \<open>
  The sample with the colon of one span normalised: a span that begins with \<open>:\<close> is
  replaced by \<open>: \<close> followed by the rest of the span without its leading whitespace.
\<close>

definition colon_normalised :: "bytes \<Rightarrow> node \<Rightarrow> bytes" where
  "colon_normalised sample node =
    take (start_byte node) sample
    @ (if prefix '':'' (source_bytes sample node)
       then '': '' @ lstrip (drop 1 (source_bytes sample node))
       else source_bytes sample node)
    @ drop (end_byte node) sample"

text \<open>
  A span is in colon-space form when it is \<open>: \<close> followed by nothing or by a byte that is
  not whitespace.
\<close>

definition colon_space_form :: "bytes \<Rightarrow> bool" where
  "colon_space_form bs =
    (case bs of
       c1 # c2 # rest \<Rightarrow>
         c1 = CHR '':'' \<and> c2 = CHR '' '' \<and> (case rest of [] \<Rightarrow> True | c3 # _ \<Rightarrow> \<not> is_space c3)
     | _ \<Rightarrow> False)"



section \<open>Concrete collaborators and samples\<close>

text \<open>
  A generator whose state is the list of draws still to come: \<open>choice\<close> uses the next draw
  to index the list it is given, \<open>binomial(n, p)\<close> rejects \<open>p\<close> outside \<open>[0, 1]\<close>, returns
  \<open>0\<close> for \<open>p = 0\<close> and \<open>n\<close> for \<open>p = 1\<close>, and otherwise reduces the next draw.
\<close>

definition script_choice :: "nat list \<Rightarrow> nat list \<Rightarrow> (py_error + nat) \<times> nat list" where
  "script_choice draws a =
    (if a = [] then (Inl ValueError, draws)
     else (case draws of
             [] \<Rightarrow> (Inl (Exception ''no draws left''), [])
           | d # rest \<Rightarrow> (Inr (a ! (d mod length a)), rest)))"

definition script_binomial :: "nat list \<Rightarrow> nat \<Rightarrow> real \<Rightarrow> (py_error + nat) \<times> nat list" where
  "script_binomial draws n p =
    (if p < 0 \<or> 1 < p then (Inl ValueError, draws)
     else (case draws of
             [] \<Rightarrow> (Inl (Exception ''no draws left''), [])
           | d # rest \<Rightarrow>
               (Inr (if p = 0 then 0 else if p = 1 then n else d mod (n + 1)), rest)))"

definition scripted :: "nat list random_state" where
  "scripted = \<lparr>rng_choice = script_choice, rng_binomial = script_binomial\<rparr>"

text \<open>
  A tokenizer with one token per code point, and the four sentinel names in its
  vocabulary; and one whose \<open>decode\<close> raises.
\<close>

definition char_tokenizer :: tokenizer where
  "char_tokenizer =
    \<lparr>vocab = [FIM_SUFFIX \<mapsto> 2000001, FIM_PREFIX \<mapsto> 2000002, FIM_MIDDLE \<mapsto> 2000003,
              FIM_PAD \<mapsto> 2000004],
     tok_encode = (\<lambda>s. Inr (map int s)),
     tok_decode = (\<lambda>toks. Inr (PyStr (map nat toks)))\<rparr>"


definition failing_tokenizer :: tokenizer where
  "failing_tokenizer =
    \<lparr>vocab = Map.empty,
     tok_encode = (\<lambda>s. Inr (map int s)),
     tok_decode = (\<lambda>toks. Inl (Exception ''decode failed''))\<rparr>"

text \<open>
  The sample of the scenario, \<open>interface Foo { foo(x: number, y: number): number; }\<close>, and
  the three \<open>type_annotation\<close> nodes of its syntax tree with their ancestors: two parameter
  types and the return type of the method signature.
\<close>

definition foo_sample :: bytes where
  "foo_sample = ''interface Foo { foo(x: number, y: number): number; }''"

definition foo_method :: node where
  "foo_method =
    Node ''method_signature'' 16 49
      (Some (Node ''object_type'' 14 52
        (Some (Node ''interface_declaration'' 0 52
          (Some (Node ''program'' 0 52 None))))))"

definition foo_params :: node where
  "foo_params = Node ''formal_parameters'' 19 41 (Some foo_method)"

definition foo_captures :: "(node \<times> string) list" where
  "foo_captures =
    [(Node ''type_annotation'' 21 29
        (Some (Node ''required_parameter'' 20 29 (Some foo_params))), ''annotation''),
     (Node ''type_annotation'' 32 40
        (Some (Node ''required_parameter'' 31 40 (Some foo_params))), ''annotation''),
     (Node ''type_annotation'' 41 49 (Some foo_method), ''annotation'')]"

definition foo_query :: ts_query where
  "foo_query sample = (if sample = foo_sample then Inr foo_captures else Inr [])"

text \<open>
  The token sequence that \<open>char_tokenizer\<close> decodes to \<open>abc\<close>, a sample without annotations.
\<close>

definition abc_tokens :: "int list" where
  "abc_tokens = map (\<lambda>c. int (of_char c)) ''abc''"

text \<open>A parser that raises on every sample.\<close>

definition raising_query :: ts_query where
  "raising_query sample = Inl (Exception ''parse failed'')"

text \<open>
  \<open>let x:number;\<close>: one annotation, written without a space after the colon.
\<close>

definition let_sample :: bytes where
  "let_sample = ''let x:number;''"

definition let_captures :: "(node \<times> string) list" where
  "let_captures =
    [(Node ''type_annotation'' 5 12
        (Some (Node ''variable_declarator'' 4 12
          (Some (Node ''lexical_declaration'' 0 13
            (Some (Node ''program'' 0 13 None)))))), ''annotation'')]"

definition let_query :: ts_query where
  "let_query sample = (if sample = let_sample then Inr let_captures else Inr [])"

text \<open>
  \<open>function f(x: number, s: string = ": string") {}\<close>: two annotations, and a string
  in the code after the second one that reads like it.
\<close>

definition lit_sample :: bytes where
  \<open>lit_sample = ''function f(x: number, s: string = ": string") {}''\<close>

definition lit_params :: node where
  "lit_params =
    Node ''formal_parameters'' 10 45
      (Some (Node ''function_declaration'' 0 48 (Some (Node ''program'' 0 48 None))))"

definition lit_captures :: "(node \<times> string) list" where
  "lit_captures =
    [(Node ''type_annotation'' 12 20
        (Some (Node ''required_parameter'' 11 20 (Some lit_params))), ''annotation''),
     (Node ''type_annotation'' 23 31
        (Some (Node ''required_parameter'' 22 44 (Some lit_params))), ''annotation'')]"

definition lit_query :: ts_query where
  "lit_query sample = (if sample = lit_sample then Inr lit_captures else Inr [])"

text \<open>
  \<open>function f(a: number, u: {k: "//"}, b: number) {}\<close>: the annotation of \<open>u\<close> contains
  \<open>//\<close>, and the annotation of \<open>k\<close> is nested in it.
\<close>

definition url_sample :: bytes where
  \<open>url_sample = ''function f(a: number, u: {k: "//"}, b: number) {}''\<close>

definition url_params :: node where
  "url_params =
    Node ''formal_parameters'' 10 46
      (Some (Node ''function_declaration'' 0 49 (Some (Node ''program'' 0 49 None))))"

definition url_outer :: node where
  "url_outer =
    Node ''type_annotation'' 23 34 (Some (Node ''required_parameter'' 22 34 (Some url_params)))"

definition url_inner :: node where
  "url_inner =
    Node ''type_annotation'' 27 33
      (Some (Node ''property_signature'' 26 33
        (Some (Node ''object_type'' 25 34 (Some url_outer)))))"

definition url_captures :: "(node \<times> string) list" where
  "url_captures =
    [(Node ''type_annotation'' 12 20
        (Some (Node ''required_parameter'' 11 20 (Some url_params))), ''annotation''),
     (url_outer, ''annotation''),
     (url_inner, ''annotation''),
     (Node ''type_annotation'' 37 45
        (Some (Node ''required_parameter'' 36 45 (Some url_params))), ''annotation'')]"

definition url_query :: ts_query where
  "url_query sample = (if sample = url_sample then Inr url_captures else Inr [])"




text \<open>
  A stand-in for what \<open>np.concatenate\<close> does with integers outside the int64 range; no
  sample below reaches it.
\<close>

definition object_wide :: "int list list \<Rightarrow> number list" where
  "object_wide arrays = map PyInt (concat arrays)"


section \<open>Properties of the codec\<close>

lemma utf8_next_bounds: "utf8_next a = Some (c, n) \<Longrightarrow> 0 < n \<and> n \<le> length a"
  by (cases a) (auto split: if_splits list.splits)

lemma utf8_next_append: "utf8_next a = Some (c, n) \<Longrightarrow> utf8_next (a @ b) = Some (c, n)"
  by (cases a) (auto split: if_splits list.splits)

lemma utf8_next_lead: "utf8_next b = Some (c, n) \<Longrightarrow> b \<noteq> [] \<and> \<not> is_cont (hd b)"
  by (cases b) (auto simp: is_cont_def split: if_splits list.splits)

lemma second_range_cont: "second_lo b0 \<le> b1 \<Longrightarrow> b1 \<le> second_hi b0 \<Longrightarrow> is_cont b1"
  by (auto simp: second_lo_def second_hi_def is_cont_def split: if_splits)

lemma utf8_next_prefix:
  assumes "utf8_next (a @ b) = Some (c, n)" and "a \<noteq> []" and "b = [] \<or> \<not> is_cont (hd b)"
  shows "utf8_next a = Some (c, n)"
proof (cases a)
  case Nil
  with assms show ?thesis by simp
next
  case (Cons b0 bs)
  show ?thesis
  proof (cases b)
    case Nil
    with assms show ?thesis by simp
  next
    case (Cons y ys)
    with assms have y: "\<not> is_cont y" by simp
    from assms(1) y show ?thesis
      unfolding \<open>a = b0 # bs\<close> \<open>b = y # ys\<close>
      by (cases bs; cases "tl bs"; cases "tl (tl bs)")
         (auto split: if_splits list.splits dest: second_range_cont)
  qed
qed

declare utf8_next.simps [simp del]

lemma utf8_codepoints_append:
  "utf8_codepoints a = Some x \<Longrightarrow>
   utf8_codepoints (a @ b) = map_option ((@) x) (utf8_codepoints b)"
proof (induction a arbitrary: x rule: utf8_codepoints.induct)
  case 1
  then show ?case by (simp add: option.map_ident)
next
  case (2 b0 bs)
  from "2.prems" obtain c n x' where
    nx: "utf8_next (b0 # bs) = Some (c, n)" and
    rest: "utf8_codepoints (drop (n - 1) bs) = Some x'" and
    x: "x = c # x'"
    by (auto split: option.splits)
  from utf8_next_bounds [OF nx] have n: "n - 1 \<le> length bs" by auto
  have "utf8_next ((b0 # bs) @ b) = Some (c, n)"
    by (rule utf8_next_append [OF nx])
  moreover have "utf8_codepoints (drop (n - 1) bs @ b) = map_option ((@) x') (utf8_codepoints b)"
    using "2.IH" [OF nx refl rest] .
  ultimately show ?case
    using n x by (simp add: option.map_comp comp_def)
qed

lemma utf8_codepoints_split:
  "utf8_codepoints (a @ b) = Some s \<Longrightarrow> b = [] \<or> \<not> is_cont (hd b) \<Longrightarrow>
   \<exists>x y. utf8_codepoints a = Some x \<and> utf8_codepoints b = Some y \<and> s = x @ y"
proof (induction a arbitrary: s rule: utf8_codepoints.induct)
  case 1
  then show ?case by simp
next
  case (2 b0 bs)
  from "2.prems"(1) obtain c n s' where
    nx: "utf8_next ((b0 # bs) @ b) = Some (c, n)" and
    rest: "utf8_codepoints (drop (n - 1) (bs @ b)) = Some s'" and
    s: "s = c # s'"
    by (auto split: option.splits)
  have nx': "utf8_next (b0 # bs) = Some (c, n)"
    using utf8_next_prefix [OF nx _ "2.prems"(2)] by simp
  from utf8_next_bounds [OF nx'] have n: "n - 1 \<le> length bs" by auto
  with rest have "utf8_codepoints (drop (n - 1) bs @ b) = Some s'" by simp
  from "2.IH" [OF nx' refl this "2.prems"(2)] obtain x y where
    "utf8_codepoints (drop (n - 1) bs) = Some x" "utf8_codepoints b = Some y" "s' = x @ y"
    by blast
  with nx' s show ?case by simp
qed

lemma utf8_codepoints_lead:
  "utf8_codepoints b = Some t \<Longrightarrow> b = [] \<or> \<not> is_cont (hd b)"
  by (cases b) (auto split: option.splits dest: utf8_next_lead)

lemma utf8_codepoints_sublist:
  assumes "utf8_codepoints (a @ b @ c) = Some s" and "utf8_codepoints b = Some t"
  shows "sublist t s"
proof (cases "b = []")
  case True
  with assms(2) show ?thesis by simp
next
  case False
  with utf8_codepoints_lead [OF assms(2)] have "b @ c = [] \<or> \<not> is_cont (hd (b @ c))"
    by simp
  from utf8_codepoints_split [OF assms(1) this] obtain x y where
    "utf8_codepoints (b @ c) = Some y" and s: "s = x @ y" by blast
  with utf8_codepoints_append [OF assms(2), of c] obtain z where "y = t @ z"
    by (cases "utf8_codepoints c") auto
  with s show ?thesis by (auto simp: sublist_def)
qed

lemma utf8_decode_append:
  "utf8_decode a = Inr x \<Longrightarrow> utf8_decode b = Inr y \<Longrightarrow> utf8_decode (a @ b) = Inr (x @ y)"
  using utf8_codepoints_append [of "map of_char a" x "map of_char b"]
  by (auto simp: utf8_decode_def split: option.splits)

lemma utf8_decode_sublist:
  "utf8_decode (a @ b @ c) = Inr s \<Longrightarrow> utf8_decode b = Inr t \<Longrightarrow> sublist t s"
  using utf8_codepoints_sublist [of "map of_char a" "map of_char b" "map of_char c" s t]
  by (auto simp: utf8_decode_def split: option.splits)

lemma decode3_append:
  "decode3 a b c = Inr (x, y, z) \<Longrightarrow> utf8_decode (a @ b @ c) = Inr (x @ y @ z)"
  by (auto simp: decode3_def utf8_decode_append split: sum.splits)

lemma decode3_parts:
  "decode3 a b c = Inr (x, y, z) \<Longrightarrow>
   utf8_decode a = Inr x \<and> utf8_decode b = Inr y \<and> utf8_decode c = Inr z"
  by (auto simp: decode3_def split: sum.splits)

section \<open>Properties of the candidate loops\<close>

lemma parent_walk_ancestors:
  "parent_walk p = (\<not> list_all (\<lambda>a. \<not> annotation_kind (node_type a)) (ancestors_from p))"
  by (induction p rule: parent_walk.induct) (auto simp: annotation_kind_def)

lemma is_capturable_eligible:
  "is_capturable sample node = Inr b \<Longrightarrow> b = eligible sample node"
  by (auto simp: is_capturable_def eligible_def is_child_type_annotation_def ancestors_def
      parent_walk_ancestors contains_url_def source_bytes_def split: if_splits sum.splits)

lemma is_splitable_capturable: "is_splitable sample node = is_capturable sample node"
  by (simp add: is_splitable_def is_capturable_def)

lemma eligible_is_capturable:
  "eligible sample node \<Longrightarrow> is_capturable sample node = Inr True"
  by (auto simp: is_capturable_def eligible_def is_child_type_annotation_def ancestors_def
      parent_walk_ancestors contains_url_def source_bytes_def split: if_splits sum.splits)

lemma captures_no_child_loop_filter:
  "captures_no_child_loop sample captures acc = Inr cnc \<Longrightarrow>
   cnc = acc @ filter (eligible sample) (map fst captures)"
proof (induction captures arbitrary: acc)
  case Nil
  then show ?case by simp
next
  case (Cons c captures)
  obtain node name where c: "c = (node, name)" by (cases c)
  from Cons.prems c obtain b where
    b: "is_capturable sample node = Inr b" and
    rest: "captures_no_child_loop sample captures (if b then acc @ [node] else acc) = Inr cnc"
    by (auto split: sum.splits)
  from is_capturable_eligible [OF b] Cons.IH [OF rest] c show ?case
    by auto
qed

lemma splittable_indices_loop_all:
  "\<forall>n \<in> set ns. eligible sample n \<Longrightarrow>
   splittable_indices_loop sample ns i acc = Inr (acc @ [i ..< i + length ns])"
proof (induction ns arbitrary: i acc)
  case Nil
  then show ?case by simp
next
  case (Cons n ns)
  then have "is_splitable sample n = Inr True"
    by (simp add: is_splitable_capturable eligible_is_capturable)
  moreover have "[i ..< i + length (n # ns)] = i # [i + 1 ..< i + 1 + length ns]"
    by (simp add: upt_conv_Cons del: upt_Suc)
  ultimately show ?case
    using Cons.IH [of "i + 1" "acc @ [i]"] Cons.prems by simp
qed

lemma foldl_append_concat:
  "foldl (\<lambda>acc k. acc @ f k) a ks = a @ concat (map f ks)"
  by (induction ks arbitrary: a) auto

lemma strip_suffix_gaps:
  "candidates \<noteq> [] \<Longrightarrow> strip_suffix sample candidates i = concat (gap_texts sample candidates i)"
  by (simp add: strip_suffix_def gap_texts_def foldl_append_concat last_conv_nth Let_def)

lemma get_prefix_middle_suffix_Some:
  assumes "get_prefix_middle_suffix R query np_rng sample rate = (Inr (Some res), r')"
    and "query sample = Inr captures"
  shows "\<exists>i r1 strip.
      captures_no_child_loop sample captures [] = Inr (filter (eligible sample) (map fst captures))
    \<and> rng_choice R np_rng [0 ..< length (filter (eligible sample) (map fst captures))] = (Inr i, r1)
    \<and> i < length (filter (eligible sample) (map fst captures))
    \<and> rng_binomial R r1 1 rate = (Inr strip, r')
    \<and> decode3 (fst (prefix_middle sample (filter (eligible sample) (map fst captures) ! i)))
         (snd (prefix_middle sample (filter (eligible sample) (map fst captures) ! i)))
         (if strip \<noteq> 0
          then strip_suffix sample (filter (eligible sample) (map fst captures)) i
          else drop (end_byte (filter (eligible sample) (map fst captures) ! i)) sample)
        = Inr res"
proof -
  let ?cands = "filter (eligible sample) (map fst captures)"
  from assms obtain cnc where cnc: "captures_no_child_loop sample captures [] = Inr cnc"
    by (auto simp: get_prefix_middle_suffix_def split: sum.splits)
  from captures_no_child_loop_filter [OF cnc] have eq: "cnc = ?cands" by simp
  have idx: "splittable_indices_loop sample ?cands 0 [] = Inr [0 ..< length ?cands]"
    using splittable_indices_loop_all [of ?cands sample 0 "[]"] by simp
  from assms cnc eq idx show ?thesis
    by (auto simp: get_prefix_middle_suffix_def getitem_def
        split: sum.splits prod.splits if_splits)
qed

section \<open>Sentinel resolution\<close>







section \<open>Evaluation of the concrete collaborators\<close>

lemma scripted_simps:
  "rng_choice scripted = script_choice" "rng_binomial scripted = script_binomial"
  by (simp_all add: scripted_def)

lemma char_tokenizer_simps:
  "tok_encode char_tokenizer s = Inr (map int s)"
  "tok_decode char_tokenizer toks = Inr (PyStr (map nat toks))"
  by (simp_all add: char_tokenizer_def)

lemma utf8_encode_ascii:
  "list_all (\<lambda>c. (of_char c :: nat) < 128) bs \<Longrightarrow> utf8_encode (ascii bs) = Inr bs"
proof -
  have "list_all (\<lambda>c. (of_char c :: nat) < 128) bs \<Longrightarrow>
        utf8_encode_cps (map of_char bs) = Some (map of_char bs)"
    by (induction bs) (simp_all add: utf8_encode_cp_def)
  then show "list_all (\<lambda>c. (of_char c :: nat) < 128) bs \<Longrightarrow> utf8_encode (ascii bs) = Inr bs"
    by (simp add: utf8_encode_def ascii_def comp_def)
qed

lemma to_bytes_abc: "to_bytes (PyStr (map nat abc_tokens)) = Inr ''abc''"
  using utf8_encode_ascii [of "''abc''"]
  by (simp add: to_bytes_def abc_tokens_def ascii_def comp_def)

lemma script_binomial_one: "script_binomial (d # r) n 1 = (Inr n, r)"
  by (simp add: script_binomial_def)

lemma script_binomial_zero: "script_binomial (d # r) n 0 = (Inr 0, r)"
  by (simp add: script_binomial_def)

lemma abc_no_span:
  "get_prefix_middle_suffix scripted foo_query r ''abc'' rate = (Inr None, r)"
  by (simp add: get_prefix_middle_suffix_def foo_query_def foo_sample_def)

lemma raising_split:
  "get_prefix_middle_suffix scripted raising_query r bs rate = (Inl (Exception ''parse failed''), r)"
  by (simp add: get_prefix_middle_suffix_def raising_query_def)

lemma foo_split_keep:
  "get_prefix_middle_suffix scripted foo_query (0 # d # r) foo_sample 0
   = (Inr (Some (ascii ''interface Foo { foo(x: '', ascii ''number'',
                 ascii '', y: number): number; }'')), r)"
  by (simp add: get_prefix_middle_suffix_def foo_query_def foo_captures_def foo_sample_def
      is_capturable_def is_splitable_def is_child_type_annotation_def
      foo_params_def foo_method_def contains_url_def slice_def utf8_decode_def utf8_next.simps
      ascii_def sublist_code prefix_code scripted_simps script_choice_def script_binomial_def
      getitem_def prefix_middle_def lstrip_def is_space_def decode3_def)



section \<open>The outcomes of \<open>permute\<close>\<close>

text \<open>
  C1 (as amended). When the FIM coin flip succeeds and the split algorithm finds no
  eligible span, \<open>permute\<close> returns \<open>None\<close> in place of a token sequence, together with the
  generator, and prints nothing. The original token sequence is not returned: the outcome
  differs from the pass-through outcome, which returns the sample.
\<close>

theorem permute_no_eligible_span:
  assumes "rng_binomial R np_rng 1 fim_rate = (Inr fim, np_rng1)" and "fim \<noteq> 0"
    and "tok_decode tokenizer sample = Inr d" and "to_bytes d = Inr decoded_bytes"
    and "get_prefix_middle_suffix R query np_rng1 decoded_bytes strip_suffix_rate = (Inr None, np_rng2)"
  shows "permute R query np_wide tokenizer sample np_rng suffix_tok_id prefix_tok_id middle_tok_id
           fim_rate fim_spm_rate strip_suffix_rate = (Inr None, np_rng2, [])"
  using assms by (simp add: permute_def)

text \<open>The theorem at \<open>abc\<close>, a sample without annotations, with the coin flip at rate 1.\<close>

theorem permute_no_eligible_span_witness:
  "rng_binomial scripted [1] 1 1 = (Inr 1, []) \<and> (1::nat) \<noteq> 0
   \<and> tok_decode char_tokenizer abc_tokens = Inr (PyStr (map nat abc_tokens))
   \<and> to_bytes (PyStr (map nat abc_tokens)) = Inr ''abc''
   \<and> get_prefix_middle_suffix scripted foo_query [] ''abc'' 0 = (Inr None, [])
   \<and> permute scripted foo_query object_wide char_tokenizer abc_tokens [1] 2000001 2000002 2000003 1 0 0
       = (Inr None, [], [])"
proof -
  have h1: "rng_binomial scripted [1] 1 1 = (Inr 1, [])"
    by (simp add: scripted_simps script_binomial_one)
  have h2: "(1::nat) \<noteq> 0" by simp
  have h3: "tok_decode char_tokenizer abc_tokens = Inr (PyStr (map nat abc_tokens))"
    by (simp add: char_tokenizer_simps)
  note h4 = to_bytes_abc
  have h5: "get_prefix_middle_suffix scripted foo_query [] ''abc'' 0 = (Inr None, [])"
    by (rule abc_no_span)
  from permute_no_eligible_span [OF h1 h2 h3 h4 h5] h1 h2 h3 h4 h5 show ?thesis
    by blast
qed

text \<open>
  C1 as stated fails there: the coin flip succeeds, no span is eligible, and the result is
  \<open>None\<close>, not the tokens of \<open>abc\<close>.
\<close>

theorem permute_no_eligible_span_counterexample:
  "rng_binomial scripted [1] 1 1 = (Inr 1, [])
   \<and> get_prefix_middle_suffix scripted foo_query [] ''abc'' 0 = (Inr None, [])
   \<and> fst (permute scripted foo_query object_wide char_tokenizer abc_tokens [1] 2000001 2000002 2000003 1 0 0)
       = Inr None
   \<and> fst (permute scripted foo_query object_wide char_tokenizer abc_tokens [1] 2000001 2000002 2000003 1 0 0)
       \<noteq> Inr (Some (map PyInt abc_tokens))"
  by (simp add: permute_def scripted_simps script_binomial_one char_tokenizer_simps
      to_bytes_abc abc_no_span [unfolded scripted_simps] abc_no_span)

text \<open>
  C2 (as amended). An exception raised by the split algorithm on the decoded bytes is
  caught in \<open>permute\<close>: the exception and the decoded bytes are printed, and the result is
  \<open>None\<close> with the generator as the split left it. No such exception leaves \<open>permute\<close>.
\<close>

theorem permute_split_exception:
  assumes "rng_binomial R np_rng 1 fim_rate = (Inr fim, np_rng1)" and "fim \<noteq> 0"
    and "tok_decode tokenizer sample = Inr d" and "to_bytes d = Inr decoded_bytes"
    and "get_prefix_middle_suffix R query np_rng1 decoded_bytes strip_suffix_rate = (Inl e, np_rng2)"
  shows "permute R query np_wide tokenizer sample np_rng suffix_tok_id prefix_tok_id middle_tok_id
           fim_rate fim_spm_rate strip_suffix_rate
         = (Inr None, np_rng2, [PrintException e, PrintFailedSample decoded_bytes])"
  using assms by (simp add: permute_def)

text \<open>The theorem at a parser that raises.\<close>

theorem permute_split_exception_witness:
  "rng_binomial scripted [1] 1 1 = (Inr 1, []) \<and> (1::nat) \<noteq> 0
   \<and> tok_decode char_tokenizer abc_tokens = Inr (PyStr (map nat abc_tokens))
   \<and> to_bytes (PyStr (map nat abc_tokens)) = Inr ''abc''
   \<and> get_prefix_middle_suffix scripted raising_query [] ''abc'' 0
       = (Inl (Exception ''parse failed''), [])
   \<and> permute scripted raising_query object_wide char_tokenizer abc_tokens [1] 2000001 2000002 2000003 1 0 0
       = (Inr None, [], [PrintException (Exception ''parse failed''), PrintFailedSample ''abc''])"
proof -
  have h1: "rng_binomial scripted [1] 1 1 = (Inr 1, [])"
    by (simp add: scripted_simps script_binomial_one)
  have h2: "(1::nat) \<noteq> 0" by simp
  have h3: "tok_decode char_tokenizer abc_tokens = Inr (PyStr (map nat abc_tokens))"
    by (simp add: char_tokenizer_simps)
  note h4 = to_bytes_abc
  have h5: "get_prefix_middle_suffix scripted raising_query [] ''abc'' 0
      = (Inl (Exception ''parse failed''), [])"
    by (rule raising_split)
  from permute_split_exception [OF h1 h2 h3 h4 h5] h1 h2 h3 h4 h5 show ?thesis
    by blast
qed

text \<open>
  C2 as stated fails twice: an exception of \<open>tokenizer.decode\<close> is raised before the
  \<open>try\<close> block and leaves \<open>permute\<close>, and a caught exception of the split algorithm gives
  \<open>None\<close>, not the original sample.
\<close>

theorem permute_split_exception_counterexample:
  "fst (permute scripted foo_query object_wide failing_tokenizer abc_tokens [1] 2000001 2000002 2000003 1 0 0)
     = Inl (Exception ''decode failed'')
   \<and> fst (permute scripted raising_query object_wide char_tokenizer abc_tokens [1]
            2000001 2000002 2000003 1 0 0) = Inr None
   \<and> fst (permute scripted raising_query object_wide char_tokenizer abc_tokens [1]
            2000001 2000002 2000003 1 0 0) \<noteq> Inr (Some (map PyInt abc_tokens))"
  by (simp add: permute_def scripted_simps script_binomial_one char_tokenizer_simps
      to_bytes_abc raising_split [unfolded scripted_simps] raising_split failing_tokenizer_def)

subsection \<open>The output sequence\<close>

declare bit_length.simps [simp del]










section \<open>Properties of slicing and of the split\<close>

lemma slice_append:
  "a \<le> c \<Longrightarrow> c \<le> b \<Longrightarrow> slice a b xs = slice a c xs @ slice c b xs"
proof -
  assume ac: "a \<le> c" and cb: "c \<le> b"
  have "take (b - a) (drop a xs) = take (c - a) (drop a xs) @ take (b - c) (drop (c - a) (drop a xs))"
    using take_add [of "c - a" "b - c" "drop a xs"] ac cb by simp
  with ac show ?thesis
    by (simp add: slice_def drop_take)
qed

lemma slice_sublist:
  assumes "a \<le> c" and "d \<le> b"
  shows "sublist (slice c d xs) (slice a b xs)"
proof (cases "c \<le> d")
  case True
  with assms have "slice a b xs = slice a c xs @ slice c d xs @ slice d b xs"
    using slice_append [of a c b xs] slice_append [of c d b xs] by simp
  then show ?thesis
    by (auto simp: sublist_def)
next
  case False
  then have "slice c d xs = []"
    by (simp add: slice_def)
  then show ?thesis by simp
qed

lemma slice_partition:
  "a \<le> b \<Longrightarrow> take a xs @ slice a b xs @ drop b xs = xs"
proof -
  assume ab: "a \<le> b"
  have "take a xs @ slice a b xs = take b xs"
    using slice_append [of 0 a b xs] ab by (simp add: slice_def)
  then show ?thesis
    by (metis append.assoc append_take_drop_id)
qed

lemma concat_map_member:
  "k \<in> set ks \<Longrightarrow> \<exists>A C. concat (map f ks) = A @ f k @ C"
proof -
  assume "k \<in> set ks"
  then obtain ys zs where "ks = ys @ k # zs"
    by (auto dest: split_list)
  then have "concat (map f ks) = concat (map f ys) @ f k @ concat (map f zs)"
    by simp
  then show ?thesis by blast
qed

lemma strip_suffix_single:
  "length candidates = 1 \<Longrightarrow>
   strip_suffix sample candidates 0 = drop (end_byte (candidates ! 0)) sample"
  by (simp add: strip_suffix_def)

lemma colon_normalised_id:
  assumes "start_byte node \<le> end_byte node"
    and "\<not> prefix '':'' (source_bytes sample node) \<or> colon_space_form (source_bytes sample node)"
  shows "colon_normalised sample node = sample"
proof -
  have "(if prefix '':'' (source_bytes sample node)
         then '': '' @ lstrip (drop 1 (source_bytes sample node))
         else source_bytes sample node) = source_bytes sample node"
    using assms(2)
    by (auto simp: colon_space_form_def lstrip_def is_space_def split: list.splits)
  then show ?thesis
    using slice_partition [OF assms(1), of sample]
    by (simp add: colon_normalised_def source_bytes_def)
qed

lemma prefix_middle_colon_normalised:
  "fst (prefix_middle sample node) @ snd (prefix_middle sample node) @ drop (end_byte node) sample
   = colon_normalised sample node"
  by (simp add: prefix_middle_def colon_normalised_def source_bytes_def Let_def)

lemma get_prefix_middle_suffix_eval:
  assumes "query sample = Inr captures"
    and "captures_no_child_loop sample captures [] = Inr cnc"
    and "rng_choice R np_rng [0 ..< length cnc] = (Inr i, r1)"
    and "i < length cnc"
    and "rng_binomial R r1 1 rate = (Inr strip, r2)"
    and "decode3 (fst (prefix_middle sample (cnc ! i))) (snd (prefix_middle sample (cnc ! i)))
           (if strip \<noteq> 0 then strip_suffix sample cnc i else drop (end_byte (cnc ! i)) sample)
         = Inr res"
  shows "get_prefix_middle_suffix R query np_rng sample rate = (Inr (Some res), r2)"
proof -
  from captures_no_child_loop_filter [OF assms(2)]
  have "\<forall>n \<in> set cnc. eligible sample n" by simp
  from splittable_indices_loop_all [OF this, of 0 "[]"]
  have idx: "splittable_indices_loop sample cnc 0 [] = Inr [0 ..< length cnc]" by simp
  from assms(4) have ne: "[0 ..< length cnc] \<noteq> []" by auto
  show ?thesis
    using assms idx ne
    by (auto simp: get_prefix_middle_suffix_def getitem_def split: prod.splits)
qed

section \<open>Evaluation of the samples\<close>

lemmas split_eval_defs =
  get_prefix_middle_suffix_def is_capturable_def is_splitable_def is_child_type_annotation_def
  contains_url_def slice_def utf8_decode_def utf8_next.simps ascii_def sublist_code prefix_code
  scripted_simps script_choice_def script_binomial_def getitem_def prefix_middle_def lstrip_def
  is_space_def decode3_def strip_suffix_def

lemmas eligible_eval_defs =
  eligible_def ancestors_def annotation_kind_def source_bytes_def slice_def utf8_decode_def
  utf8_next.simps ascii_def sublist_code prefix_code

lemma foo_eligible:
  "filter (eligible foo_sample) (map fst foo_captures) = map fst foo_captures"
  by (simp add: foo_captures_def foo_sample_def foo_params_def foo_method_def eligible_eval_defs)

lemma let_eligible:
  "filter (eligible let_sample) (map fst let_captures) = map fst let_captures"
  by (simp add: let_captures_def let_sample_def eligible_eval_defs)

lemma lit_eligible:
  "filter (eligible lit_sample) (map fst lit_captures) = map fst lit_captures"
  by (simp add: lit_captures_def lit_sample_def lit_params_def eligible_eval_defs)

lemma url_eligible:
  "filter (eligible url_sample) (map fst url_captures)
   = [fst (url_captures ! 0), fst (url_captures ! 3)]"
  by (simp add: url_captures_def url_sample_def url_params_def url_outer_def url_inner_def
      eligible_eval_defs)

lemma foo_candidates:
  "captures_no_child_loop foo_sample foo_captures [] = Inr (map fst foo_captures)"
  by (simp add: foo_captures_def foo_sample_def foo_params_def foo_method_def split_eval_defs)

lemma url_candidates:
  "captures_no_child_loop url_sample url_captures []
   = Inr [fst (url_captures ! 0), fst (url_captures ! 3)]"
  by (simp add: url_captures_def url_sample_def url_params_def url_outer_def url_inner_def
      split_eval_defs)

lemma foo_decode3_keep:
  "decode3 (fst (prefix_middle foo_sample (map fst foo_captures ! 0)))
     (snd (prefix_middle foo_sample (map fst foo_captures ! 0)))
     (drop (end_byte (map fst foo_captures ! 0)) foo_sample)
   = Inr (ascii ''interface Foo { foo(x: '', ascii ''number'', ascii '', y: number): number; }'')"
  by (simp add: foo_captures_def foo_sample_def split_eval_defs)

lemma let_split_keep:
  "get_prefix_middle_suffix scripted let_query (0 # d # r) let_sample 0
   = (Inr (Some (ascii ''let x: '', ascii ''number'', ascii '';'')), r)"
  by (simp add: let_query_def let_captures_def let_sample_def split_eval_defs)

lemma lit_split_strip:
  \<open>get_prefix_middle_suffix scripted lit_query (0 # d # r) lit_sample 1
   = (Inr (Some (ascii ''function f(x: '', ascii ''number'', ascii '', s = ": string") {}'')), r)\<close>
  by (simp add: lit_query_def lit_captures_def lit_sample_def lit_params_def split_eval_defs)

lemma url_split_strip:
  \<open>get_prefix_middle_suffix scripted url_query (0 # d # r) url_sample 1
   = (Inr (Some (ascii ''function f(a: '', ascii ''number'', ascii '', u: {k: "//"}, b) {}'')), r)\<close>
  by (simp add: url_query_def url_captures_def url_sample_def url_params_def url_outer_def
      url_inner_def split_eval_defs)

section \<open>The candidates and the three segments\<close>

text \<open>
  C5. The list \<open>captures_no_child\<close> is the list of captured nodes that are eligible, in the
  order of the captures: a captured node is in it if and only if none of its ancestors is
  of an annotation kind and its decoded source text does not contain \<open>//\<close>. Whatever the
  generator draws, the prefix and the middle that \<open>get_prefix_middle_suffix\<close> returns are
  those of a node of that list, so a node that fails either condition is never selected.
\<close>

theorem candidates_are_eligible:
  "(captures_no_child_loop sample captures [] = Inr captures_no_child
      \<longrightarrow> captures_no_child = filter (eligible sample) (map fst captures))
   \<and> (query sample = Inr captures
      \<and> get_prefix_middle_suffix R query np_rng sample rate = (Inr (Some (p, m, s)), r')
      \<longrightarrow> (\<exists>picked \<in> set (filter (eligible sample) (map fst captures)).
             utf8_decode (fst (prefix_middle sample picked)) = Inr p
           \<and> utf8_decode (snd (prefix_middle sample picked)) = Inr m))"
proof (intro conjI impI)
  assume "captures_no_child_loop sample captures [] = Inr captures_no_child"
  from captures_no_child_loop_filter [OF this]
  show "captures_no_child = filter (eligible sample) (map fst captures)" by simp
next
  let ?cands = "filter (eligible sample) (map fst captures)"
  assume a: "query sample = Inr captures
      \<and> get_prefix_middle_suffix R query np_rng sample rate = (Inr (Some (p, m, s)), r')"
  then have q: "query sample = Inr captures" and
    g: "get_prefix_middle_suffix R query np_rng sample rate = (Inr (Some (p, m, s)), r')"
    by simp_all
  from get_prefix_middle_suffix_Some [OF g q] obtain i and strip :: nat where
    i: "i < length ?cands" and
    dec: "decode3 (fst (prefix_middle sample (?cands ! i))) (snd (prefix_middle sample (?cands ! i)))
           (if strip \<noteq> 0 then strip_suffix sample ?cands i
            else drop (end_byte (?cands ! i)) sample) = Inr (p, m, s)"
    by blast
  from decode3_parts [OF dec] nth_mem [OF i]
  show "\<exists>picked \<in> set ?cands.
          utf8_decode (fst (prefix_middle sample picked)) = Inr p
        \<and> utf8_decode (snd (prefix_middle sample picked)) = Inr m"
    by blast
qed

text \<open>
  The theorem at a sample with four captures, of which one contains \<open>//\<close> and one is
  nested: two candidates remain.
\<close>

theorem candidates_are_eligible_witness:
  \<open>captures_no_child_loop url_sample url_captures []
     = Inr [fst (url_captures ! 0), fst (url_captures ! 3)]
   \<and> url_query url_sample = Inr url_captures
   \<and> get_prefix_middle_suffix scripted url_query [0, 0] url_sample 1
       = (Inr (Some (ascii ''function f(a: '', ascii ''number'',
                     ascii '', u: {k: "//"}, b) {}'')), [])
   \<and> [fst (url_captures ! 0), fst (url_captures ! 3)]
       = filter (eligible url_sample) (map fst url_captures)
   \<and> (\<exists>picked. picked \<in> set (filter (eligible url_sample) (map fst url_captures))
       \<and> utf8_decode (fst (prefix_middle url_sample picked)) = Inr (ascii ''function f(a: '')
       \<and> utf8_decode (snd (prefix_middle url_sample picked)) = Inr (ascii ''number''))\<close>
proof -
  note h1 = url_candidates
  have h2: "url_query url_sample = Inr url_captures"
    by (simp add: url_query_def)
  have h3: \<open>get_prefix_middle_suffix scripted url_query [0, 0] url_sample 1
       = (Inr (Some (ascii ''function f(a: '', ascii ''number'',
                     ascii '', u: {k: "//"}, b) {}'')), [])\<close>
    by (rule url_split_strip)
  from candidates_are_eligible [of url_sample url_captures
      "[fst (url_captures ! 0), fst (url_captures ! 3)]" url_query scripted "[0, 0]" 1
      "ascii ''function f(a: ''" "ascii ''number''" \<open>ascii '', u: {k: "//"}, b) {}''\<close> "[]"]
    h1 h2 h3
  show ?thesis by blast
qed

text \<open>
  C3 (as amended). When the suffix is kept, the returned prefix, middle and suffix,
  concatenated with nothing added (the prefix already ends in the colon and a space), are
  the text of the sample in which the selected span, if it begins with \<open>:\<close>, has that colon
  and the whitespace after it replaced by \<open>: \<close>. The concatenation is therefore the
  original sample whenever the selected span does not begin with a colon, or is a colon,
  one space, and then nothing or a byte that is not whitespace.
\<close>

theorem keep_reconstructs_normalised:
  assumes "query sample = Inr captures"
    and "get_prefix_middle_suffix R query np_rng sample rate = (Inr (Some (p, m, s)), r')"
    and "rng_choice R np_rng [0 ..< length (filter (eligible sample) (map fst captures))]
           = (Inr i, r1)"
    and "rng_binomial R r1 1 rate = (Inr 0, r2)"
  shows "utf8_decode (colon_normalised sample (filter (eligible sample) (map fst captures) ! i))
           = Inr (p @ m @ s)
       \<and> (start_byte (filter (eligible sample) (map fst captures) ! i)
            \<le> end_byte (filter (eligible sample) (map fst captures) ! i)
          \<and> (\<not> prefix '':''
                 (source_bytes sample (filter (eligible sample) (map fst captures) ! i))
              \<or> colon_space_form
                 (source_bytes sample (filter (eligible sample) (map fst captures) ! i)))
          \<longrightarrow> utf8_decode sample = Inr (p @ m @ s))"
proof -
  let ?cands = "filter (eligible sample) (map fst captures)"
  from get_prefix_middle_suffix_Some [OF assms(2) assms(1)] assms(3,4) have
    dec: "decode3 (fst (prefix_middle sample (?cands ! i))) (snd (prefix_middle sample (?cands ! i)))
           (drop (end_byte (?cands ! i)) sample) = Inr (p, m, s)"
    by auto
  then have "utf8_decode (colon_normalised sample (?cands ! i)) = Inr (p @ m @ s)"
    using decode3_append [of "fst (prefix_middle sample (?cands ! i))"
        "snd (prefix_middle sample (?cands ! i))" "drop (end_byte (?cands ! i)) sample" p m s]
    by (simp add: prefix_middle_colon_normalised)
  then show ?thesis
    using colon_normalised_id [of "?cands ! i" sample] by metis
qed

text \<open>The theorem at the scenario's sample, whose annotations are in colon-space form.\<close>

theorem keep_reconstructs_normalised_witness:
  "foo_query foo_sample = Inr foo_captures
   \<and> get_prefix_middle_suffix scripted foo_query [0, 0] foo_sample 0
       = (Inr (Some (ascii ''interface Foo { foo(x: '', ascii ''number'',
                     ascii '', y: number): number; }'')), [])
   \<and> rng_choice scripted [0, 0]
        [0 ..< length (filter (eligible foo_sample) (map fst foo_captures))] = (Inr 0, [0])
   \<and> rng_binomial scripted [0] 1 0 = (Inr 0, [])
   \<and> start_byte (filter (eligible foo_sample) (map fst foo_captures) ! 0)
       \<le> end_byte (filter (eligible foo_sample) (map fst foo_captures) ! 0)
   \<and> colon_space_form
        (source_bytes foo_sample (filter (eligible foo_sample) (map fst foo_captures) ! 0))
   \<and> utf8_decode (colon_normalised foo_sample
         (filter (eligible foo_sample) (map fst foo_captures) ! 0))
       = Inr (ascii ''interface Foo { foo(x: '' @ ascii ''number''
              @ ascii '', y: number): number; }'')
   \<and> utf8_decode foo_sample
       = Inr (ascii ''interface Foo { foo(x: '' @ ascii ''number''
              @ ascii '', y: number): number; }'')"
proof -
  have h1: "foo_query foo_sample = Inr foo_captures"
    by (simp add: foo_query_def)
  have h2: "get_prefix_middle_suffix scripted foo_query [0, 0] foo_sample 0
       = (Inr (Some (ascii ''interface Foo { foo(x: '', ascii ''number'',
                     ascii '', y: number): number; }'')), [])"
    by (rule foo_split_keep)
  have h3: "rng_choice scripted [0, 0]
        [0 ..< length (filter (eligible foo_sample) (map fst foo_captures))] = (Inr 0, [0])"
    unfolding foo_eligible by (simp add: foo_captures_def scripted_simps script_choice_def)
  have h4: "rng_binomial scripted [0] 1 0 = (Inr 0, [])"
    by (simp add: scripted_simps script_binomial_zero)
  have c0: "start_byte (filter (eligible foo_sample) (map fst foo_captures) ! 0)
       \<le> end_byte (filter (eligible foo_sample) (map fst foo_captures) ! 0)"
    unfolding foo_eligible by (simp add: foo_captures_def)
  have c1: "colon_space_form
        (source_bytes foo_sample (filter (eligible foo_sample) (map fst foo_captures) ! 0))"
    unfolding foo_eligible
    by (simp add: colon_space_form_def source_bytes_def slice_def foo_sample_def foo_captures_def
        is_space_def)
  from keep_reconstructs_normalised [OF h1 h2 h3 h4] h1 h2 h3 h4 c0 c1 show ?thesis
    by blast
qed

text \<open>
  C3 as stated fails at \<open>let x:number;\<close>: the segments are \<open>let x: \<close>, \<open>number\<close> and
  \<open>;\<close>, and neither their concatenation nor the concatenation with a colon restored in
  front of the middle is the sample.
\<close>

theorem keep_reconstructs_normalised_counterexample:
  "get_prefix_middle_suffix scripted let_query [0, 0] let_sample 0
     = (Inr (Some (ascii ''let x: '', ascii ''number'', ascii '';'')), [])
   \<and> utf8_decode let_sample = Inr (ascii ''let x:number;'')
   \<and> ascii ''let x: '' @ ascii '': '' @ ascii ''number'' @ ascii '';'' \<noteq> ascii ''let x:number;''
   \<and> ascii ''let x: '' @ ascii '':'' @ ascii ''number'' @ ascii '';'' \<noteq> ascii ''let x:number;''
   \<and> ascii ''let x: '' @ ascii ''number'' @ ascii '';'' \<noteq> ascii ''let x:number;''"
  by (simp add: let_split_keep) (simp add: let_sample_def utf8_decode_def utf8_next.simps ascii_def)

text \<open>
  C7 (as amended). When the strip draw is non-zero, the suffix is exactly the decoded
  concatenation, in source order, of the gap texts from the selected candidate on: from
  the end of each candidate to the start of the next one, and from the end of the last
  candidate to the end of the sample. Nothing is said about occurrences of a candidate's
  text: only the byte ranges of the later candidates are left out.
\<close>

theorem strip_suffix_is_gap_concatenation:
  assumes "query sample = Inr captures"
    and "get_prefix_middle_suffix R query np_rng sample rate = (Inr (Some (p, m, s)), r')"
    and "rng_choice R np_rng [0 ..< length (filter (eligible sample) (map fst captures))]
           = (Inr i, r1)"
    and "rng_binomial R r1 1 rate = (Inr strip, r2)" and "strip \<noteq> 0"
  shows "i < length (filter (eligible sample) (map fst captures))
       \<and> utf8_decode (concat (gap_texts sample (filter (eligible sample) (map fst captures)) i))
           = Inr s"
proof -
  let ?cands = "filter (eligible sample) (map fst captures)"
  from get_prefix_middle_suffix_Some [OF assms(2) assms(1)] assms(3,4,5) have
    i: "i < length ?cands" and
    dec: "decode3 (fst (prefix_middle sample (?cands ! i))) (snd (prefix_middle sample (?cands ! i)))
           (strip_suffix sample ?cands i) = Inr (p, m, s)"
    by auto
  from decode3_parts [OF dec] have "utf8_decode (strip_suffix sample ?cands i) = Inr s"
    by simp
  moreover from i have "?cands \<noteq> []"
    by (metis list.size(3) not_less_zero)
  ultimately have "utf8_decode (concat (gap_texts sample ?cands i)) = Inr s"
    by (simp add: strip_suffix_gaps)
  with i show ?thesis by blast
qed

text \<open>The theorem at the sample with two candidates around a dropped annotation.\<close>

theorem strip_suffix_is_gap_concatenation_witness:
  \<open>url_query url_sample = Inr url_captures
   \<and> get_prefix_middle_suffix scripted url_query [0, 0] url_sample 1
       = (Inr (Some (ascii ''function f(a: '', ascii ''number'',
                     ascii '', u: {k: "//"}, b) {}'')), [])
   \<and> rng_choice scripted [0, 0]
        [0 ..< length (filter (eligible url_sample) (map fst url_captures))] = (Inr 0, [0])
   \<and> rng_binomial scripted [0] 1 1 = (Inr 1, []) \<and> (1::nat) \<noteq> 0
   \<and> 0 < length (filter (eligible url_sample) (map fst url_captures))
   \<and> utf8_decode (concat (gap_texts url_sample
         (filter (eligible url_sample) (map fst url_captures)) 0))
       = Inr (ascii '', u: {k: "//"}, b) {}'')
   \<and> gap_texts url_sample (filter (eligible url_sample) (map fst url_captures)) 0
       = ['', u: {k: "//"}, b'', '') {}'']\<close>
proof -
  have h1: "url_query url_sample = Inr url_captures"
    by (simp add: url_query_def)
  have h2: \<open>get_prefix_middle_suffix scripted url_query [0, 0] url_sample 1
       = (Inr (Some (ascii ''function f(a: '', ascii ''number'',
                     ascii '', u: {k: "//"}, b) {}'')), [])\<close>
    by (rule url_split_strip)
  have h3: "rng_choice scripted [0, 0]
        [0 ..< length (filter (eligible url_sample) (map fst url_captures))] = (Inr 0, [0])"
    unfolding url_eligible by (simp add: scripted_simps script_choice_def)
  have h4: "rng_binomial scripted [0] 1 1 = (Inr 1, [])"
    by (simp add: scripted_simps script_binomial_one)
  have h5: "(1::nat) \<noteq> 0" by simp
  have g: \<open>gap_texts url_sample (filter (eligible url_sample) (map fst url_captures)) 0
       = ['', u: {k: "//"}, b'', '') {}'']\<close>
    unfolding url_eligible
    by (simp add: gap_texts_def url_captures_def url_sample_def slice_def)
  from strip_suffix_is_gap_concatenation [OF h1 h2 h3 h4 h5] h1 h2 h3 h4 h5 g show ?thesis
    by blast
qed

text \<open>
  C7 as stated fails where a gap contains the text of another candidate: in
  \<open>function f(x: number, s: string = ": string") {}\<close> the stripped suffix for the first
  of the two candidates contains \<open>: string\<close>, the source text of the second.
\<close>

theorem strip_suffix_is_gap_concatenation_counterexample:
  \<open>filter (eligible lit_sample) (map fst lit_captures) = map fst lit_captures
   \<and> length lit_captures = 2
   \<and> rng_choice scripted [0, 0] [0, 1] = (Inr 0, [0])
   \<and> rng_binomial scripted [0] 1 1 = (Inr 1, [])
   \<and> get_prefix_middle_suffix scripted lit_query [0, 0] lit_sample 1
       = (Inr (Some (ascii ''function f(x: '', ascii ''number'',
                     ascii '', s = ": string") {}'')), [])
   \<and> utf8_decode (source_bytes lit_sample (fst (lit_captures ! 1))) = Inr (ascii '': string'')
   \<and> sublist (ascii '': string'') (ascii '', s = ": string") {}'')\<close>
proof -
  have \<open>sublist (ascii '': string'') (ascii '', s = ": string") {}'')\<close>
    by (simp add: ascii_def sublist_code prefix_code)
  moreover have "utf8_decode (source_bytes lit_sample (fst (lit_captures ! 1)))
      = Inr (ascii '': string'')"
    by (simp add: source_bytes_def slice_def lit_sample_def lit_captures_def utf8_decode_def
        utf8_next.simps ascii_def)
  moreover have "rng_choice scripted [0, 0] [0, 1] = (Inr 0, [0])"
    by (simp add: scripted_simps script_choice_def)
  moreover have "rng_binomial scripted [0] 1 1 = (Inr 1, [])"
    by (simp add: scripted_simps script_binomial_one)
  moreover have "length lit_captures = 2"
    by (simp add: lit_captures_def)
  ultimately show ?thesis
    using lit_eligible lit_split_strip [of 0 "[]"] by blast
qed

text \<open>
  C9. When exactly one span is eligible, the strip branch and the keep branch compute the
  same suffix, the rest of the sample after the end of that span, so the returned suffix
  is the same whatever the draw.
\<close>

theorem single_span_suffix:
  assumes "query sample = Inr captures"
    and "length (filter (eligible sample) (map fst captures)) = 1"
    and "get_prefix_middle_suffix R query np_rng sample rate = (Inr (Some (p, m, s)), r')"
  shows "strip_suffix sample (filter (eligible sample) (map fst captures)) 0
           = drop (end_byte (filter (eligible sample) (map fst captures) ! 0)) sample
         \<and> utf8_decode (drop (end_byte (filter (eligible sample) (map fst captures) ! 0)) sample)
           = Inr s"
proof -
  let ?cands = "filter (eligible sample) (map fst captures)"
  from get_prefix_middle_suffix_Some [OF assms(3) assms(1)] obtain i and strip :: nat where
    i: "i < length ?cands" and
    dec: "decode3 (fst (prefix_middle sample (?cands ! i))) (snd (prefix_middle sample (?cands ! i)))
           (if strip \<noteq> 0 then strip_suffix sample ?cands i
            else drop (end_byte (?cands ! i)) sample) = Inr (p, m, s)"
    by blast
  from i assms(2) have i0: "i = 0" by simp
  have same: "strip_suffix sample ?cands 0 = drop (end_byte (?cands ! 0)) sample"
    using assms(2) by (rule strip_suffix_single)
  from decode3_parts [OF dec] i0 same
  have "utf8_decode (drop (end_byte (?cands ! 0)) sample) = Inr s"
    by (cases "strip = 0") simp_all
  with same show ?thesis by simp
qed

text \<open>The theorem at \<open>let x:number;\<close>.\<close>

theorem single_span_suffix_witness:
  "let_query let_sample = Inr let_captures
   \<and> length (filter (eligible let_sample) (map fst let_captures)) = 1
   \<and> get_prefix_middle_suffix scripted let_query [0, 0] let_sample 0
       = (Inr (Some (ascii ''let x: '', ascii ''number'', ascii '';'')), [])
   \<and> strip_suffix let_sample (filter (eligible let_sample) (map fst let_captures)) 0
       = drop (end_byte (filter (eligible let_sample) (map fst let_captures) ! 0)) let_sample
   \<and> utf8_decode (drop (end_byte (filter (eligible let_sample) (map fst let_captures) ! 0))
         let_sample) = Inr (ascii '';'')"
proof -
  have h1: "let_query let_sample = Inr let_captures"
    by (simp add: let_query_def)
  have h2: "length (filter (eligible let_sample) (map fst let_captures)) = 1"
    unfolding let_eligible by (simp add: let_captures_def)
  have h3: "get_prefix_middle_suffix scripted let_query [0, 0] let_sample 0
       = (Inr (Some (ascii ''let x: '', ascii ''number'', ascii '';'')), [])"
    by (rule let_split_keep)
  from single_span_suffix [OF h1 h2 h3] h1 h2 h3 show ?thesis
    by blast
qed

text \<open>
  C10. When the suffix is stripped, an annotation node that the eligibility filter dropped
  is not removed: if its bytes lie between two consecutive candidates, from the selected
  one on, they are a contiguous part of the bytes of the returned suffix, and its text, if
  it decodes, is a contiguous part of the returned suffix.
\<close>

theorem dropped_annotation_kept_in_stripped_suffix:
  assumes "query sample = Inr captures"
    and "get_prefix_middle_suffix R query np_rng sample rate = (Inr (Some (p, m, s)), r')"
    and "rng_choice R np_rng [0 ..< length (filter (eligible sample) (map fst captures))]
           = (Inr i, r1)"
    and "rng_binomial R r1 1 rate = (Inr strip, r2)" and "strip \<noteq> 0"
    and "d \<in> fst ` set captures" and "\<not> eligible sample d"
    and "i \<le> k" and "k + 1 < length (filter (eligible sample) (map fst captures))"
    and "end_byte (filter (eligible sample) (map fst captures) ! k) \<le> start_byte d"
    and "end_byte d \<le> start_byte (filter (eligible sample) (map fst captures) ! (k + 1))"
  shows "(\<exists>suffix_b. utf8_decode suffix_b = Inr s \<and> sublist (source_bytes sample d) suffix_b)
       \<and> (\<forall>t. utf8_decode (source_bytes sample d) = Inr t \<longrightarrow> sublist t s)"
proof -
  let ?cands = "filter (eligible sample) (map fst captures)"
  let ?gap = "\<lambda>k. slice (end_byte (?cands ! k)) (start_byte (?cands ! (k + 1))) sample"
  from get_prefix_middle_suffix_Some [OF assms(2) assms(1)] assms(3,4,5) have
    dec: "decode3 (fst (prefix_middle sample (?cands ! i))) (snd (prefix_middle sample (?cands ! i)))
           (strip_suffix sample ?cands i) = Inr (p, m, s)"
    by auto
  from decode3_parts [OF dec] have suffix: "utf8_decode (strip_suffix sample ?cands i) = Inr s"
    by simp
  from assms(8,9) have "k \<in> set [i ..< length ?cands - 1]" by simp
  from concat_map_member [OF this, of ?gap] obtain A C where
    "concat (map ?gap [i ..< length ?cands - 1]) = A @ ?gap k @ C"
    by blast
  then have split: "strip_suffix sample ?cands i
      = A @ ?gap k @ (C @ drop (end_byte (?cands ! (length ?cands - 1))) sample)"
    by (simp add: strip_suffix_def foldl_append_concat Let_def)
  from slice_sublist [OF assms(10,11), of sample] obtain X Y where
    gap: "?gap k = X @ source_bytes sample d @ Y"
    by (auto simp: sublist_def source_bytes_def)
  from split gap have whole: "strip_suffix sample ?cands i
      = (A @ X) @ source_bytes sample d
        @ (Y @ C @ drop (end_byte (?cands ! (length ?cands - 1))) sample)"
    by simp
  then have "sublist (source_bytes sample d) (strip_suffix sample ?cands i)"
    unfolding sublist_def by blast
  moreover have "\<forall>t. utf8_decode (source_bytes sample d) = Inr t \<longrightarrow> sublist t s"
    using suffix utf8_decode_sublist [of "A @ X" "source_bytes sample d"
        "Y @ C @ drop (end_byte (?cands ! (length ?cands - 1))) sample" s]
    unfolding whole by blast
  ultimately show ?thesis
    using suffix by blast
qed

text \<open>
  The theorem at the annotation of \<open>u\<close>, which contains \<open>//\<close> and lies between the two
  candidates.
\<close>

theorem dropped_annotation_kept_in_stripped_suffix_witness:
  \<open>url_query url_sample = Inr url_captures
   \<and> get_prefix_middle_suffix scripted url_query [0, 0] url_sample 1
       = (Inr (Some (ascii ''function f(a: '', ascii ''number'',
                     ascii '', u: {k: "//"}, b) {}'')), [])
   \<and> rng_choice scripted [0, 0]
        [0 ..< length (filter (eligible url_sample) (map fst url_captures))] = (Inr 0, [0])
   \<and> rng_binomial scripted [0] 1 1 = (Inr 1, []) \<and> (1::nat) \<noteq> 0
   \<and> url_outer \<in> fst ` set url_captures \<and> \<not> eligible url_sample url_outer
   \<and> (0::nat) \<le> 0 \<and> 0 + 1 < length (filter (eligible url_sample) (map fst url_captures))
   \<and> end_byte (filter (eligible url_sample) (map fst url_captures) ! 0) \<le> start_byte url_outer
   \<and> end_byte url_outer
       \<le> start_byte (filter (eligible url_sample) (map fst url_captures) ! (0 + 1))
   \<and> source_bytes url_sample url_outer = '': {k: "//"}''
   \<and> utf8_decode (source_bytes url_sample url_outer) = Inr (ascii '': {k: "//"}'')
   \<and> (\<exists>suffix_b. utf8_decode suffix_b = Inr (ascii '', u: {k: "//"}, b) {}'')
         \<and> sublist (source_bytes url_sample url_outer) suffix_b)
   \<and> sublist (ascii '': {k: "//"}'') (ascii '', u: {k: "//"}, b) {}'')\<close>
proof -
  have h1: "url_query url_sample = Inr url_captures"
    by (simp add: url_query_def)
  have h2: \<open>get_prefix_middle_suffix scripted url_query [0, 0] url_sample 1
       = (Inr (Some (ascii ''function f(a: '', ascii ''number'',
                     ascii '', u: {k: "//"}, b) {}'')), [])\<close>
    by (rule url_split_strip)
  have h3: "rng_choice scripted [0, 0]
        [0 ..< length (filter (eligible url_sample) (map fst url_captures))] = (Inr 0, [0])"
    unfolding url_eligible by (simp add: scripted_simps script_choice_def)
  have h4: "rng_binomial scripted [0] 1 1 = (Inr 1, [])"
    by (simp add: scripted_simps script_binomial_one)
  have h5: "(1::nat) \<noteq> 0" by simp
  have h6: "url_outer \<in> fst ` set url_captures"
    by (simp add: url_captures_def)
  have h7: "\<not> eligible url_sample url_outer"
    by (simp add: url_outer_def url_sample_def url_params_def eligible_eval_defs)
  have h8: "(0::nat) \<le> 0" by simp
  have h9: "0 + 1 < length (filter (eligible url_sample) (map fst url_captures))"
    unfolding url_eligible by simp
  have h10: "end_byte (filter (eligible url_sample) (map fst url_captures) ! 0)
      \<le> start_byte url_outer"
    unfolding url_eligible by (simp add: url_captures_def url_outer_def)
  have h11: "end_byte url_outer
       \<le> start_byte (filter (eligible url_sample) (map fst url_captures) ! (0 + 1))"
    unfolding url_eligible by (simp add: url_captures_def url_outer_def)
  have b: \<open>source_bytes url_sample url_outer = '': {k: "//"}''\<close>
    by (simp add: source_bytes_def slice_def url_outer_def url_sample_def)
  have t: \<open>utf8_decode (source_bytes url_sample url_outer) = Inr (ascii '': {k: "//"}'')\<close>
    unfolding b by (simp add: utf8_decode_def utf8_next.simps ascii_def)
  from dropped_annotation_kept_in_stripped_suffix [OF h1 h2 h3 h4 h5 h6 h7 h8 h9 h10 h11]
    h1 h2 h3 h4 h5 h6 h7 h8 h9 h10 h11 b t
  show ?thesis by blast
qed

text \<open>
  C8 (as amended). For \<open>interface Foo { foo(x: number, y: number): number; }\<close> and its
  three captured annotations, all three are candidates, and selecting index 0 without
  stripping gives the prefix \<open>interface Foo { foo(x: \<close> (with the colon and a space at its
  end), the middle \<open>number\<close> and the suffix \<open>, y: number): number; }\<close>.
\<close>

theorem scenario_split:
  assumes "rng_choice R np_rng [0, 1, 2] = (Inr 0, np_rng1)"
    and "rng_binomial R np_rng1 1 strip_suffix_rate = (Inr 0, np_rng2)"
  shows "foo_query foo_sample = Inr foo_captures
       \<and> captures_no_child_loop foo_sample foo_captures [] = Inr (map fst foo_captures)
       \<and> length (map fst foo_captures) = 3
       \<and> get_prefix_middle_suffix R foo_query np_rng foo_sample strip_suffix_rate
           = (Inr (Some (ascii ''interface Foo { foo(x: '', ascii ''number'',
                         ascii '', y: number): number; }'')), np_rng2)"
proof -
  have q: "foo_query foo_sample = Inr foo_captures"
    by (simp add: foo_query_def)
  have len: "length (map fst foo_captures) = 3"
    by (simp add: foo_captures_def)
  have "[0 ..< length (map fst foo_captures)] = [0, 1, 2]"
    unfolding len by (simp add: upt_rec)
  with assms(1) have pick: "rng_choice R np_rng [0 ..< length (map fst foo_captures)]
      = (Inr 0, np_rng1)"
    by simp
  have i: "0 < length (map fst foo_captures)"
    unfolding len by simp
  have "get_prefix_middle_suffix R foo_query np_rng foo_sample strip_suffix_rate
      = (Inr (Some (ascii ''interface Foo { foo(x: '', ascii ''number'',
                    ascii '', y: number): number; }'')), np_rng2)"
    using get_prefix_middle_suffix_eval [of foo_query foo_sample, OF q foo_candidates pick i assms(2)]
      foo_decode3_keep
    by simp
  with q foo_candidates len show ?thesis by blast
qed

text \<open>The theorem at a generator that draws index 0 and then no stripping.\<close>

theorem scenario_split_witness:
  "rng_choice scripted [0, 0] [0, 1, 2] = (Inr 0, [0])
   \<and> rng_binomial scripted [0] 1 0 = (Inr 0, [])
   \<and> length (map fst foo_captures) = 3
   \<and> get_prefix_middle_suffix scripted foo_query [0, 0] foo_sample 0
       = (Inr (Some (ascii ''interface Foo { foo(x: '', ascii ''number'',
                     ascii '', y: number): number; }'')), [])"
proof -
  have h1: "rng_choice scripted [0, 0] [0, 1, 2] = (Inr 0, [0])"
    by (simp add: scripted_simps script_choice_def)
  have h2: "rng_binomial scripted [0] 1 0 = (Inr 0, [])"
    by (simp add: scripted_simps script_binomial_zero)
  from scenario_split [OF h1 h2] h1 h2 show ?thesis by blast
qed

text \<open>
  C8 as stated fails: the prefix is not \<open>interface Foo { foo(x\<close>.
\<close>

theorem scenario_split_counterexample:
  "rng_choice scripted [0, 0] [0, 1, 2] = (Inr 0, [0])
   \<and> rng_binomial scripted [0] 1 0 = (Inr 0, [])
   \<and> fst (get_prefix_middle_suffix scripted foo_query [0, 0] foo_sample 0)
       \<noteq> Inr (Some (ascii ''interface Foo { foo(x'', ascii ''number'',
                     ascii '', y: number): number; }''))"
  by (simp add: foo_split_keep scripted_simps script_choice_def script_binomial_zero ascii_def)

end
